theory Spec2Isabelle
  imports Main "HOL-Library.Word"
begin

section \<open>Python strings\<close>

text \<open>
  A Python \<open>str\<close> is a sequence of Unicode code points, so the model of a string is a
  list of natural numbers. \<open>asc\<close> turns an ASCII literal into such a list.
\<close>

type_synonym ustr = "nat list"

definition asc :: "string \<Rightarrow> ustr" where
  "asc s = map of_char s"

text \<open>
  \<open>str.isspace\<close> for one code point: the characters that \<open>str.strip()\<close> without an
  argument removes (tab to carriage return, the four separators 28 to 31, space, NEL,
  no-break space, and the Unicode space separators).
\<close>

definition isspace :: "nat \<Rightarrow> bool" where
  "isspace c \<longleftrightarrow>
     (9 \<le> c \<and> c \<le> 13) \<or> (28 \<le> c \<and> c \<le> 32) \<or> c = 133 \<or> c = 160 \<or> c = 5760 \<or>
     (8192 \<le> c \<and> c \<le> 8202) \<or> c = 8232 \<or> c = 8233 \<or> c = 8239 \<or> c = 8287 \<or>
     c = 12288"

definition lstrip :: "ustr \<Rightarrow> ustr" where
  "lstrip s = dropWhile isspace s"

definition rstrip :: "ustr \<Rightarrow> ustr" where
  "rstrip s = rev (dropWhile isspace (rev s))"

definition strip :: "ustr \<Rightarrow> ustr" where
  "strip s = rstrip (lstrip s)"

text \<open>
  \<open>s.split(sep)\<close> for a separator of one character: the pieces between the occurrences
  of the separator, the empty string giving one empty piece. The result is never empty,
  so the first branch of the \<open>case\<close> is never taken.
\<close>

fun split_on :: "'a \<Rightarrow> 'a list \<Rightarrow> 'a list list" where
  "split_on sep [] = [[]]"
| "split_on sep (c # cs) =
     (if c = sep then [] # split_on sep cs
      else (case split_on sep cs of [] \<Rightarrow> [[c]] | l # ls \<Rightarrow> (c # l) # ls))"

text \<open>
  \<open>s.rsplit(sep, maxsplit)\<close> for a separator of one character: at most \<open>maxsplit\<close>
  cuts, each at the last separator of what is left.
\<close>

fun rsplit :: "'a \<Rightarrow> nat \<Rightarrow> 'a list \<Rightarrow> 'a list list" where
  "rsplit sep 0 s = [s]"
| "rsplit sep (Suc n) s =
     (if sep \<in> set s
      then rsplit sep n (rev (tl (dropWhile (\<lambda>c. c \<noteq> sep) (rev s))))
             @ [rev (takeWhile (\<lambda>c. c \<noteq> sep) (rev s))]
      else [s])"

text \<open>\<open>str(n)\<close> for a natural number, as an f-string formats it.\<close>

function str_nat :: "nat \<Rightarrow> ustr" where
  "str_nat n = (if n < 10 then [48 + n] else str_nat (n div 10) @ [48 + n mod 10])"
  by pat_completeness auto
termination
  by (relation "measure id") auto

declare str_nat.simps [simp del]

text \<open>\<open>n\<close> written with exactly \<open>k\<close> decimal digits, zero-padded (\<open>'%04d'\<close>, \<open>'%02d'\<close>).\<close>

fun digits :: "nat \<Rightarrow> nat \<Rightarrow> ustr" where
  "digits 0 n = []"
| "digits (Suc k) n = digits k (n div 10) @ [48 + n mod 10]"

text \<open>The value of a string of ASCII digits, \<open>None\<close> when a character is not a digit.\<close>

fun number_acc :: "nat \<Rightarrow> ustr \<Rightarrow> nat option" where
  "number_acc a [] = Some a"
| "number_acc a (c # cs) =
     (if 48 \<le> c \<and> c \<le> 57 then number_acc (10 * a + (c - 48)) cs else None)"

definition number :: "ustr \<Rightarrow> nat option" where
  "number s = (if s = [] then None else number_acc 0 s)"

section \<open>Exceptions and HTTP results\<close>

text \<open>
  \<open>HTTPException status text cause\<close>: the \<open>detail\<close> of the response is \<open>text\<close>, followed by
  \<open>str(cause)\<close> when the handler formats a caught exception into it. An exception that
  leaves a handler other than as \<open>HTTPException\<close> is answered by the framework with
  status 500.
\<close>

datatype exn =
    UnicodeDecodeError
  | ValueError
  | StoreError
  | HTTPException nat ustr "exn option"

fun status_code :: "exn + 'a \<Rightarrow> nat" where
  "status_code (Inr r) = 200"
| "status_code (Inl (HTTPException c d e)) = c"
| "status_code (Inl e) = 500"

section \<open>Decoding the uploaded bytes\<close>

text \<open>
  \<open>bytes.decode('utf-8')\<close> in strict mode: one to four bytes a code point, no overlong
  forms, no surrogates, nothing above U+10FFFF.
\<close>

definition cont :: "nat \<Rightarrow> bool" where
  "cont b \<longleftrightarrow> 128 \<le> b \<and> b \<le> 191"

text \<open>
  The second byte of a sequence has a narrower range after the lead bytes E0 and F0 (no
  overlong form), ED (no surrogate) and F4 (nothing above U+10FFFF).
\<close>

definition second_ok :: "nat \<Rightarrow> nat \<Rightarrow> bool" where
  "second_ok b b1 \<longleftrightarrow>
     (if b = 224 then 160 else if b = 240 then 144 else 128) \<le> b1 \<and>
     b1 \<le> (if b = 237 then 159 else if b = 244 then 143 else 191)"

fun utf8 :: "nat list \<Rightarrow> ustr option" where
  "utf8 [] = Some []"
| "utf8 (b # bs) =
     (if b < 128 then map_option ((#) b) (utf8 bs)
      else if 194 \<le> b \<and> b \<le> 223 then
        (case bs of
           b1 # r \<Rightarrow>
             if cont b1 then map_option ((#) ((b - 192) * 64 + (b1 - 128))) (utf8 r)
             else None
         | _ \<Rightarrow> None)
      else if 224 \<le> b \<and> b \<le> 239 then
        (case bs of
           b1 # b2 # r \<Rightarrow>
             if second_ok b b1 \<and> cont b2
             then map_option ((#) ((b - 224) * 4096 + (b1 - 128) * 64 + (b2 - 128))) (utf8 r)
             else None
         | _ \<Rightarrow> None)
      else if 240 \<le> b \<and> b \<le> 244 then
        (case bs of
           b1 # b2 # b3 # r \<Rightarrow>
             if second_ok b b1 \<and> cont b2 \<and> cont b3
             then map_option
                    ((#) ((b - 240) * 262144 + (b1 - 128) * 4096 + (b2 - 128) * 64 + (b3 - 128)))
                    (utf8 r)
             else None
         | _ \<Rightarrow> None)
      else None)"

definition decode :: "8 word list \<Rightarrow> exn + ustr" where
  "decode contents =
     (case utf8 (map unat contents) of None \<Rightarrow> Inl UnicodeDecodeError | Some text \<Rightarrow> Inr text)"

section \<open>Timestamps\<close>

text \<open>
  \<open>created_at\<close> is \<open>datetime.now(timezone.utc)\<close>: a timezone-aware \<open>datetime\<close> at UTC offset
  zero. The record holds its calendar fields; the offset is always zero and is not a
  field.
\<close>

record datetime =
  year :: nat
  month :: nat
  day :: nat
  hour :: nat
  minute :: nat
  second :: nat
  microsecond :: nat

definition is_leap :: "nat \<Rightarrow> bool" where
  "is_leap y \<longleftrightarrow> (if y mod 100 = 0 then y mod 400 = 0 else y mod 4 = 0)"

definition days_in_month :: "nat \<Rightarrow> nat \<Rightarrow> nat" where
  "days_in_month y m =
     (if m = 2 then (if is_leap y then 29 else 28)
      else if m = 4 \<or> m = 6 \<or> m = 9 \<or> m = 11 then 30 else 31)"

text \<open>The values a Python \<open>datetime\<close> can hold.\<close>

definition valid_datetime :: "datetime \<Rightarrow> bool" where
  "valid_datetime d \<longleftrightarrow>
     1 \<le> year d \<and> year d \<le> 9999 \<and> 1 \<le> month d \<and> month d \<le> 12 \<and>
     1 \<le> day d \<and> day d \<le> days_in_month (year d) (month d) \<and>
     hour d < 24 \<and> minute d < 60 \<and> second d < 60 \<and> microsecond d < 1000000"

text \<open>
  \<open>datetime.isoformat()\<close> of an aware datetime at offset zero:
  \<open>YYYY-MM-DDTHH:MM:SS+00:00\<close>, with \<open>.ffffff\<close> after the seconds when the microseconds
  are not zero.
\<close>

definition isoformat :: "datetime \<Rightarrow> ustr" where
  "isoformat d =
     digits 4 (year d) @ asc ''-'' @ digits 2 (month d) @ asc ''-'' @ digits 2 (day d) @
     asc ''T'' @ digits 2 (hour d) @ asc '':'' @ digits 2 (minute d) @ asc '':'' @
     digits 2 (second d) @
     (if microsecond d = 0 then [] else asc ''.'' @ digits 6 (microsecond d)) @
     asc ''+00:00''"

text \<open>
  \<open>datetime.fromisoformat\<close>, restricted to the strings that \<open>isoformat\<close> above writes: the
  date, any one separator character, the time with or without six digits of
  microseconds, and the offset \<open>+00:00\<close>. Out-of-range fields are a \<open>ValueError\<close> in
  Python, \<open>None\<close> here. Every other string is \<open>None\<close> here as well, which is narrower
  than Python: it also reads other spellings of a UTC timestamp (a \<open>Z\<close> suffix, three
  fractional digits), and it reads strings with no offset or another offset as
  datetimes that the record above does not represent. The handlers store only strings
  written by \<open>isoformat\<close>.
\<close>

definition fromisoformat :: "ustr \<Rightarrow> datetime option" where
  "fromisoformat s =
     (let n = length s in
      if (n = 25 \<or> n = 32 \<and> s ! 19 = 46) \<and>
         s ! 4 = 45 \<and> s ! 7 = 45 \<and> s ! 13 = 58 \<and> s ! 16 = 58 \<and>
         drop (n - 6) s = asc ''+00:00''
      then
        (case (number (take 4 s), number (take 2 (drop 5 s)), number (take 2 (drop 8 s)),
               number (take 2 (drop 11 s)), number (take 2 (drop 14 s)),
               number (take 2 (drop 17 s)),
               if n = 32 then number (take 6 (drop 20 s)) else Some 0) of
           (Some y, Some mo, Some dd, Some h, Some mi, Some sec, Some us) \<Rightarrow>
             (let d = \<lparr>year = y, month = mo, day = dd, hour = h, minute = mi, second = sec,
                       microsecond = us\<rparr>
              in if valid_datetime d then Some d else None)
         | _ \<Rightarrow> None)
      else None)"

section \<open>Data model\<close>

text \<open>
  \<open>Resource\<close> is the pydantic model, \<open>ResourceCreate\<close> the body of a create request. A
  \<open>doc\<close> is a document of the collection \<open>db.resources\<close>: the dump of a \<open>Resource\<close>, in
  which \<open>created_at\<close> is the ISO string the handlers store, or a datetime (the handlers
  test which, with \<open>isinstance(..., str)\<close>).
\<close>

record Resource =
  res_id :: ustr
  url :: ustr
  login :: ustr
  password :: ustr
  is_active :: bool
  created_at :: datetime

record ResourceCreate =
  new_url :: ustr
  new_login :: ustr
  new_password :: ustr

datatype stamp = Str ustr | Dt datetime

record doc =
  doc_id :: ustr
  doc_url :: ustr
  doc_login :: ustr
  doc_password :: ustr
  doc_is_active :: bool
  doc_created_at :: stamp

text \<open>
  \<open>doc = resource_obj.model_dump(); doc['created_at'] = doc['created_at'].isoformat()\<close>
\<close>

definition to_doc :: "Resource \<Rightarrow> doc" where
  "to_doc r =
     \<lparr>doc_id = res_id r, doc_url = url r, doc_login = login r, doc_password = password r,
      doc_is_active = is_active r, doc_created_at = Str (isoformat (created_at r))\<rparr>"

text \<open>
  Reading a document back: a string \<open>created_at\<close> goes through \<open>fromisoformat\<close>, which
  may raise \<open>ValueError\<close>; then \<open>Resource(**result)\<close>.
\<close>

definition from_doc :: "doc \<Rightarrow> exn + Resource" where
  "from_doc d =
     (case (case doc_created_at d of
              Str s \<Rightarrow> (case fromisoformat s of None \<Rightarrow> Inl ValueError | Some t \<Rightarrow> Inr t)
            | Dt t \<Rightarrow> Inr t) of
        Inl e \<Rightarrow> Inl e
      | Inr t \<Rightarrow>
          Inr \<lparr>res_id = doc_id d, url = doc_url d, login = doc_login d,
               password = doc_password d, is_active = doc_is_active d, created_at = t\<rparr>)"

section \<open>The environment: store, identifiers, clock\<close>

text \<open>
  The state a handler runs in. \<open>resources\<close> is the collection in store order. \<open>steps\<close>
  counts the calls made to the environment so far, and the three oracles give what the
  environment answers at each call: the identifier \<open>uuid.uuid4()\<close> returns, the time
  \<open>datetime.now\<close> returns, and whether the store operation issued at that call fails.
\<close>

record world =
  resources :: "doc list"
  steps :: nat
  uuid4 :: "nat \<Rightarrow> ustr"
  utcnow :: "nat \<Rightarrow> datetime"
  store_down :: "nat \<Rightarrow> bool"

definition tick :: "world \<Rightarrow> world" where
  "tick w = w\<lparr>steps := Suc (steps w)\<rparr>"

text \<open>\<open>Resource(url=..., login=..., password=...)\<close> with its two default factories.\<close>

definition new_Resource :: "world \<Rightarrow> ustr \<Rightarrow> ustr \<Rightarrow> ustr \<Rightarrow> Resource \<times> world" where
  "new_Resource w u l p =
     (\<lparr>res_id = uuid4 w (steps w), url = u, login = l, password = p, is_active = True,
       created_at = utcnow w (steps w)\<rparr>, tick w)"

definition insert_one :: "world \<Rightarrow> doc \<Rightarrow> (exn + unit) \<times> world" where
  "insert_one w d =
     (if store_down w (steps w) then (Inl StoreError, tick w)
      else (Inr (), tick (w\<lparr>resources := resources w @ [d]\<rparr>)))"

text \<open>\<open>find({}, {"_id": 0}).to_list(1000)\<close>\<close>

definition find_all :: "world \<Rightarrow> (exn + doc list) \<times> world" where
  "find_all w =
     (if store_down w (steps w) then (Inl StoreError, tick w)
      else (Inr (take 1000 (resources w)), tick w))"

text \<open>
  \<open>find_one_and_update({"id": rid}, {"$set": {"is_active": v}}, return_document=True)\<close>
  on the documents: the first document with that id is updated and returned as it is
  after the update; \<open>None\<close> when there is none.
\<close>

fun set_active_first :: "ustr \<Rightarrow> bool \<Rightarrow> doc list \<Rightarrow> doc option \<times> doc list" where
  "set_active_first rid v [] = (None, [])"
| "set_active_first rid v (d # ds) =
     (if doc_id d = rid then (Some (d\<lparr>doc_is_active := v\<rparr>), d\<lparr>doc_is_active := v\<rparr> # ds)
      else (case set_active_first rid v ds of (r, ds') \<Rightarrow> (r, d # ds')))"

definition find_one_and_update :: "world \<Rightarrow> ustr \<Rightarrow> bool \<Rightarrow> (exn + doc option) \<times> world" where
  "find_one_and_update w rid v =
     (if store_down w (steps w) then (Inl StoreError, tick w)
      else (case set_active_first rid v (resources w) of
              (r, ds) \<Rightarrow> (Inr r, tick (w\<lparr>resources := ds\<rparr>))))"

text \<open>
  \<open>delete_one({"id": rid})\<close>: the first document with that id is removed; the result is
  \<open>deleted_count\<close>.
\<close>

fun remove_first :: "ustr \<Rightarrow> doc list \<Rightarrow> nat \<times> doc list" where
  "remove_first rid [] = (0, [])"
| "remove_first rid (d # ds) =
     (if doc_id d = rid then (1, ds)
      else (case remove_first rid ds of (n, ds') \<Rightarrow> (n, d # ds')))"

definition delete_one :: "world \<Rightarrow> ustr \<Rightarrow> (exn + nat) \<times> world" where
  "delete_one w rid =
     (if store_down w (steps w) then (Inl StoreError, tick w)
      else (case remove_first rid (resources w) of
              (n, ds) \<Rightarrow> (Inr n, tick (w\<lparr>resources := ds\<rparr>))))"

section \<open>Messages\<close>

text \<open>
  The handlers' messages are Russian; they are given by their code points. In order:
  "Resource not found", "Resource deleted", "Import error: ", "Resources imported: ",
  "Line ", ": invalid format (expected url:login:pass)" and ": empty fields".
\<close>

definition msg_not_found :: ustr where
  "msg_not_found =
     [1056, 1077, 1089, 1091, 1088, 1089, 32, 1085, 1077, 32, 1085, 1072, 1081, 1076, 1077,
      1085]"

definition msg_deleted :: ustr where
  "msg_deleted = [1056, 1077, 1089, 1091, 1088, 1089, 32, 1091, 1076, 1072, 1083, 1105, 1085]"

definition msg_import_error :: ustr where
  "msg_import_error =
     [1054, 1096, 1080, 1073, 1082, 1072, 32, 1080, 1084, 1087, 1086, 1088, 1090, 1072, 58,
      32]"

definition msg_imported :: ustr where
  "msg_imported =
     [1048, 1084, 1087, 1086, 1088, 1090, 1080, 1088, 1086, 1074, 1072, 1085, 1086, 32, 1088,
      1077, 1089, 1091, 1088, 1089, 1086, 1074, 58, 32]"

definition msg_line :: ustr where
  "msg_line = [1057, 1090, 1088, 1086, 1082, 1072, 32]"

definition msg_bad_format :: ustr where
  "msg_bad_format =
     [58, 32, 1085, 1077, 1074, 1077, 1088, 1085, 1099, 1081, 32, 1092, 1086, 1088, 1084,
      1072, 1090, 32, 40, 1086, 1078, 1080, 1076, 1072, 1077, 1090, 1089, 1103, 32]
     @ asc ''url:login:pass)''"

definition msg_empty_fields :: ustr where
  "msg_empty_fields =
     [58, 32, 1087, 1091, 1089, 1090, 1099, 1077, 32, 1087, 1086, 1083, 1103]"

definition err_bad_format :: "nat \<Rightarrow> ustr" where
  "err_bad_format i = msg_line @ str_nat i @ msg_bad_format"

definition err_empty_fields :: "nat \<Rightarrow> ustr" where
  "err_empty_fields i = msg_line @ str_nat i @ msg_empty_fields"

section \<open>The handlers\<close>

text \<open>\<open>POST /resources\<close>\<close>

definition create_resource :: "world \<Rightarrow> ResourceCreate \<Rightarrow> (exn + Resource) \<times> world" where
  "create_resource w input =
     (case new_Resource w (new_url input) (new_login input) (new_password input) of
        (resource_obj, w1) \<Rightarrow>
          (case insert_one w1 (to_doc resource_obj) of
             (Inl e, w2) \<Rightarrow> (Inl e, w2)
           | (Inr u, w2) \<Rightarrow> (Inr resource_obj, w2)))"

text \<open>
  \<open>GET /resources\<close>: every string \<open>created_at\<close> is parsed; the first one that does not
  parse raises.
\<close>

fun parse_all :: "doc list \<Rightarrow> exn + Resource list" where
  "parse_all [] = Inr []"
| "parse_all (d # ds) =
     (case from_doc d of
        Inl e \<Rightarrow> Inl e
      | Inr r \<Rightarrow> (case parse_all ds of Inl e \<Rightarrow> Inl e | Inr rs \<Rightarrow> Inr (r # rs)))"

definition get_resources :: "world \<Rightarrow> (exn + Resource list) \<times> world" where
  "get_resources w =
     (case find_all w of
        (Inl e, w1) \<Rightarrow> (Inl e, w1)
      | (Inr ds, w1) \<Rightarrow> (parse_all ds, w1))"

text \<open>\<open>PUT /resources/{resource_id}\<close> with body \<open>{is_active: v}\<close>\<close>

definition update_resource :: "world \<Rightarrow> ustr \<Rightarrow> bool \<Rightarrow> (exn + Resource) \<times> world" where
  "update_resource w resource_id v =
     (case find_one_and_update w resource_id v of
        (Inl e, w1) \<Rightarrow> (Inl e, w1)
      | (Inr None, w1) \<Rightarrow> (Inl (HTTPException 404 msg_not_found None), w1)
      | (Inr (Some result), w1) \<Rightarrow> (from_doc result, w1))"

text \<open>\<open>DELETE /resources/{resource_id}\<close>; the value returned is the \<open>message\<close>.\<close>

definition delete_resource :: "world \<Rightarrow> ustr \<Rightarrow> (exn + ustr) \<times> world" where
  "delete_resource w resource_id =
     (case delete_one w resource_id of
        (Inl e, w1) \<Rightarrow> (Inl e, w1)
      | (Inr deleted_count, w1) \<Rightarrow>
          if deleted_count = 0 then (Inl (HTTPException 404 msg_not_found None), w1)
          else (Inr msg_deleted, w1))"

text \<open>
  \<open>POST /resources/import\<close>. \<open>import_loop\<close> is the \<open>for i, line in enumerate(lines, 1)\<close>
  loop, from line number \<open>i\<close> on, with the counter \<open>imported\<close> and the list \<open>errors\<close>; an
  exception of \<open>insert_one\<close> leaves the loop.
\<close>

fun import_loop ::
  "world \<Rightarrow> nat \<Rightarrow> ustr list \<Rightarrow> nat \<Rightarrow> ustr list \<Rightarrow> (exn + nat \<times> ustr list) \<times> world" where
  "import_loop w i [] imported errors = (Inr (imported, errors), w)"
| "import_loop w i (l # rest) imported errors =
     (let line = strip l in
      if line = [] then import_loop w (Suc i) rest imported errors
      else
        let parts = rsplit 58 2 line in
        if length parts \<noteq> 3
        then import_loop w (Suc i) rest imported (errors @ [err_bad_format i])
        else
          let u = strip (parts ! 0); lg = strip (parts ! 1); pw = strip (parts ! 2) in
          if u = [] \<or> lg = [] \<or> pw = []
          then import_loop w (Suc i) rest imported (errors @ [err_empty_fields i])
          else
            (case new_Resource w u lg pw of
               (resource_obj, w1) \<Rightarrow>
                 (case insert_one w1 (to_doc resource_obj) of
                    (Inl e, w2) \<Rightarrow> (Inl e, w2)
                  | (Inr x, w2) \<Rightarrow> import_loop w2 (Suc i) rest (Suc imported) errors)))"

record import_report =
  message :: ustr
  imported :: nat
  errors :: "ustr list"

text \<open>
  The whole body is inside \<open>try: ... except Exception as e: raise HTTPException(400, ...)\<close>,
  so the decoding error and an exception leaving the loop are both caught there.
\<close>

definition import_resources :: "world \<Rightarrow> 8 word list \<Rightarrow> (exn + import_report) \<times> world" where
  "import_resources w contents =
     (case decode contents of
        Inl e \<Rightarrow> (Inl (HTTPException 400 msg_import_error (Some e)), w)
      | Inr text \<Rightarrow>
          (case import_loop w 1 (split_on 10 (strip text)) 0 [] of
             (Inl e, w1) \<Rightarrow> (Inl (HTTPException 400 msg_import_error (Some e)), w1)
           | (Inr (n, errs), w1) \<Rightarrow>
               (Inr \<lparr>message = msg_imported @ str_nat n, imported = n, errors = errs\<rparr>, w1)))"

section \<open>Notions used in the statements\<close>

text \<open>The number of lines that are not empty after trimming.\<close>

definition nonblank :: "ustr list \<Rightarrow> nat" where
  "nonblank ls = length (filter (\<lambda>l. strip l \<noteq> []) ls)"

text \<open>
  Sample values: a timestamp, an environment whose store is empty and always answers,
  the same with a store that always fails, a stored document with the resource it
  reads back as, and an environment holding that document.
\<close>

definition sample_time :: datetime where
  "sample_time =
     \<lparr>year = 2024, month = 2, day = 29, hour = 23, minute = 59, second = 58,
      microsecond = 123456\<rparr>"

definition world0 :: world where
  "world0 =
     \<lparr>resources = [], steps = 0, uuid4 = (\<lambda>n. asc ''id-'' @ str_nat n),
      utcnow = (\<lambda>n. sample_time), store_down = (\<lambda>n. False)\<rparr>"


definition sample_resource :: Resource where
  "sample_resource =
     \<lparr>res_id = asc ''id-0'', url = asc ''http://a.com'', login = asc ''user1'',
      password = asc ''pass1'', is_active = True, created_at = sample_time\<rparr>"

definition sample_doc :: doc where
  "sample_doc = to_doc sample_resource"

definition world1 :: world where
  "world1 = world0\<lparr>resources := [sample_doc], steps := 2\<rparr>"

text \<open>
  The bytes of the text \<open>http://a.com:user1:pass1\nbadline\nhttp://b.com:user2:pass2\<close>.
\<close>

definition scenario :: "8 word list" where
  "scenario =
     [104, 116, 116, 112, 58, 47, 47, 97, 46, 99, 111, 109, 58, 117, 115, 101, 114, 49, 58,
      112, 97, 115, 115, 49, 10, 98, 97, 100, 108, 105, 110, 101, 10, 104, 116, 116, 112, 58,
      47, 47, 98, 46, 99, 111, 109, 58, 117, 115, 101, 114, 50, 58, 112, 97, 115, 115, 50]"

section \<open>The import loop, one line at a time\<close>

declare import_loop.simps(2) [simp del]

lemma store_down_tick [simp]: "store_down (tick w) = store_down w"
  by (simp add: tick_def)

lemma import_loop_blank:
  "strip l = [] \<Longrightarrow> import_loop w i (l # rest) imp errs = import_loop w (Suc i) rest imp errs"
  by (simp add: import_loop.simps(2))

lemma import_loop_bad_format:
  "strip l \<noteq> [] \<Longrightarrow> length (rsplit 58 2 (strip l)) \<noteq> 3 \<Longrightarrow>
   import_loop w i (l # rest) imp errs =
   import_loop w (Suc i) rest imp (errs @ [err_bad_format i])"
  by (simp add: import_loop.simps(2))


lemma import_loop_insert:
  "strip l \<noteq> [] \<Longrightarrow> rsplit 58 2 (strip l) = [a, b, c] \<Longrightarrow>
   strip a \<noteq> [] \<Longrightarrow> strip b \<noteq> [] \<Longrightarrow> strip c \<noteq> [] \<Longrightarrow>
   import_loop w i (l # rest) imp errs =
   (case new_Resource w (strip a) (strip b) (strip c) of
      (resource_obj, w1) \<Rightarrow>
        (case insert_one w1 (to_doc resource_obj) of
           (Inl e, w2) \<Rightarrow> (Inl e, w2)
         | (Inr x, w2) \<Rightarrow> import_loop w2 (Suc i) rest (Suc imp) errs))"
  by (simp add: import_loop.simps(2))

section \<open>Splitting from the right\<close>

lemma rev_cut:
  assumes "sep \<in> set s"
  shows "s = rev (tl (dropWhile (\<lambda>c. c \<noteq> sep) (rev s))) @ sep # rev (takeWhile (\<lambda>c. c \<noteq> sep) (rev s))"
proof -
  let ?P = "\<lambda>c. c \<noteq> sep"
  from assms have ne: "dropWhile ?P (rev s) \<noteq> []"
    by simp
  then have "\<not> ?P (hd (dropWhile ?P (rev s)))"
    by (rule hd_dropWhile)
  with ne have d: "dropWhile ?P (rev s) = sep # tl (dropWhile ?P (rev s))"
    by (cases "dropWhile ?P (rev s)") auto
  have "rev s = takeWhile ?P (rev s) @ dropWhile ?P (rev s)"
    by simp
  then have "rev s = takeWhile ?P (rev s) @ sep # tl (dropWhile ?P (rev s))"
    using d by simp
  then have "rev (rev s) = rev (takeWhile ?P (rev s) @ sep # tl (dropWhile ?P (rev s)))"
    by (rule arg_cong)
  then show ?thesis by simp
qed

lemma last_piece_free: "sep \<notin> set (rev (takeWhile (\<lambda>c. c \<noteq> sep) (rev s)))"
  by (auto dest: set_takeWhileD)

lemma count_cut:
  assumes "sep \<in> set s"
  shows "Suc (count_list (rev (tl (dropWhile (\<lambda>c. c \<noteq> sep) (rev s)))) sep) = count_list s sep"
proof -
  let ?p = "rev (tl (dropWhile (\<lambda>c. c \<noteq> sep) (rev s)))"
  let ?q = "rev (takeWhile (\<lambda>c. c \<noteq> sep) (rev s))"
  have "count_list s sep = count_list (?p @ sep # ?q) sep"
    using rev_cut [OF assms] by simp
  also have "\<dots> = count_list ?p sep + Suc (count_list ?q sep)"
    by simp
  also have "count_list ?q sep = 0"
    using last_piece_free [of sep s] by (simp add: count_list_0_iff)
  finally show ?thesis by simp
qed

lemma length_rsplit: "length (rsplit sep n s) = Suc (min n (count_list s sep))"
proof (induction n arbitrary: s)
  case 0
  show ?case by simp
next
  case (Suc n)
  show ?case
  proof (cases "sep \<in> set s")
    case True
    then show ?thesis
      using Suc.IH count_cut [OF True] by (simp add: min_def)
  next
    case False
    then have "count_list s sep = 0" by (simp add: count_list_0_iff)
    with False show ?thesis by simp
  qed
qed

lemma rsplit_two:
  assumes "2 \<le> count_list s sep"
  shows "\<exists>u lg pw. rsplit sep 2 s = [u, lg, pw] \<and> s = u @ sep # lg @ sep # pw \<and>
           sep \<notin> set lg \<and> sep \<notin> set pw"
proof -
  let ?p = "rev (tl (dropWhile (\<lambda>c. c \<noteq> sep) (rev s)))"
  let ?q = "rev (takeWhile (\<lambda>c. c \<noteq> sep) (rev s))"
  let ?p' = "rev (tl (dropWhile (\<lambda>c. c \<noteq> sep) (rev ?p)))"
  let ?q' = "rev (takeWhile (\<lambda>c. c \<noteq> sep) (rev ?p))"
  from assms have in_s: "sep \<in> set s"
    by (metis count_list_0_iff not_numeral_le_zero)
  have "Suc (count_list ?p sep) = count_list s sep"
    by (rule count_cut [OF in_s])
  with assms have "count_list ?p sep \<noteq> 0" by simp
  then have in_p: "sep \<in> set ?p"
    by (simp add: count_list_0_iff)
  have s: "s = ?p @ sep # ?q" by (rule rev_cut [OF in_s])
  have p: "?p = ?p' @ sep # ?q'" by (rule rev_cut [OF in_p])
  have r: "rsplit sep 2 s = [?p', ?q', ?q]"
    using in_s in_p by (simp add: numeral_2_eq_2)
  have "s = ?p' @ sep # ?q' @ sep # ?q"
    using s p by (metis append.assoc append_Cons)
  moreover have "sep \<notin> set ?q'" by (rule last_piece_free)
  moreover have "sep \<notin> set ?q" by (rule last_piece_free)
  ultimately show ?thesis using r by blast
qed

section \<open>Trimming and splitting into lines\<close>

lemma strip_Nil_iff: "strip s = [] \<longleftrightarrow> (\<forall>c\<in>set s. isspace c)"
proof
  assume "strip s = []"
  then have "\<forall>c\<in>set (dropWhile isspace s). isspace c"
    by (simp add: strip_def rstrip_def lstrip_def)
  then have "dropWhile isspace s = []"
    by (metis hd_dropWhile hd_in_set)
  then show "\<forall>c\<in>set s. isspace c" by simp
next
  assume "\<forall>c\<in>set s. isspace c"
  then have "dropWhile isspace s = []" by simp
  then show "strip s = []"
    by (simp only: strip_def rstrip_def lstrip_def rev.simps dropWhile.simps)
qed

lemma nonblank_simps [simp]:
  "nonblank [] = 0"
  "nonblank (l # ls) = (if strip l = [] then nonblank ls else Suc (nonblank ls))"
  "nonblank (ks @ ls) = nonblank ks + nonblank ls"
  by (simp_all add: nonblank_def)

lemma split_on_not_Nil [simp]: "split_on sep s \<noteq> []"
  by (induction s) (auto split: list.splits)

lemma strip_space_Cons: "isspace c \<Longrightarrow> strip (c # l) = [] \<longleftrightarrow> strip l = []"
  by (simp add: strip_Nil_iff)

lemma strip_space_snoc: "isspace c \<Longrightarrow> strip (l @ [c]) = [] \<longleftrightarrow> strip l = []"
  by (auto simp add: strip_Nil_iff)

lemma isspace_newline: "isspace 10"
  by (simp add: isspace_def)

lemma nonblank_split_Cons:
  assumes "isspace c"
  shows "nonblank (split_on 10 (c # s)) = nonblank (split_on 10 s)"
proof (cases "split_on 10 s")
  case Nil
  then show ?thesis by simp
next
  case (Cons l ls)
  then show ?thesis
    using assms by (simp add: strip_space_Cons strip_Nil_iff)
qed

lemma nonblank_lstrip: "nonblank (split_on 10 (lstrip s)) = nonblank (split_on 10 s)"
  unfolding lstrip_def
proof (induction s)
  case Nil
  show ?case by simp
next
  case (Cons c s)
  show ?case
  proof (cases "isspace c")
    case True
    then show ?thesis
      using Cons.IH nonblank_split_Cons [OF True, of s] by simp
  next
    case False
    then show ?thesis by simp
  qed
qed

lemma split_on_snoc:
  "split_on sep (s @ [c]) =
     (if c = sep then split_on sep s @ [[]]
      else butlast (split_on sep s) @ [last (split_on sep s) @ [c]])"
proof (induction s)
  case Nil
  show ?case by simp
next
  case (Cons d s)
  obtain l ls where sp: "split_on sep s = l # ls"
    by (cases "split_on sep s") auto
  show ?case
  proof (cases "c = sep")
    case True
    then show ?thesis using Cons.IH sp by (simp split: list.splits)
  next
    case False
    then show ?thesis using Cons.IH sp
      by (cases ls) (auto split: list.splits)
  qed
qed

lemma nonblank_split_snoc:
  assumes "isspace c"
  shows "nonblank (split_on 10 (s @ [c])) = nonblank (split_on 10 s)"
proof (cases "c = 10")
  case True
  then show ?thesis by (simp add: split_on_snoc strip_Nil_iff)
next
  case False
  let ?X = "split_on 10 s"
  have xs: "butlast ?X @ [last ?X] = ?X" by simp
  have "nonblank (butlast ?X @ [last ?X @ [c]]) = nonblank (butlast ?X) + nonblank [last ?X @ [c]]"
    by (simp only: nonblank_simps(3))
  also have "nonblank [last ?X @ [c]] = nonblank [last ?X]"
    using assms by (simp add: strip_space_snoc)
  also have "nonblank (butlast ?X) + nonblank [last ?X] = nonblank (butlast ?X @ [last ?X])"
    by (simp only: nonblank_simps(3))
  also have "\<dots> = nonblank ?X" by (simp only: xs)
  finally show ?thesis using False by (simp add: split_on_snoc)
qed

lemma nonblank_rstrip: "nonblank (split_on 10 (rstrip s)) = nonblank (split_on 10 s)"
proof -
  have "nonblank (split_on 10 (rev (dropWhile isspace r))) = nonblank (split_on 10 (rev r))" for r
  proof (induction r)
    case Nil
    show ?case by simp
  next
    case (Cons c r)
    show ?case
    proof (cases "isspace c")
      case True
      then show ?thesis
        using Cons.IH nonblank_split_snoc [OF True, of "rev r"] by simp
    next
      case False
      then show ?thesis by simp
    qed
  qed
  from this [of "rev s"] show ?thesis by (simp add: rstrip_def)
qed

lemma nonblank_strip: "nonblank (split_on 10 (strip s)) = nonblank (split_on 10 s)"
  by (simp add: strip_def nonblank_rstrip nonblank_lstrip)

section \<open>The import loop as a whole\<close>

lemma import_loop_cases:
  "import_loop w i (l # rest) imp errs =
     (if strip l = [] then import_loop w (Suc i) rest imp errs
      else if length (rsplit 58 2 (strip l)) \<noteq> 3
        then import_loop w (Suc i) rest imp (errs @ [err_bad_format i])
      else if strip (rsplit 58 2 (strip l) ! 0) = [] \<or> strip (rsplit 58 2 (strip l) ! 1) = [] \<or>
              strip (rsplit 58 2 (strip l) ! 2) = []
        then import_loop w (Suc i) rest imp (errs @ [err_empty_fields i])
      else if store_down w (Suc (steps w)) then
        (Inl StoreError, tick (tick w))
      else
        import_loop
          (tick (tick w\<lparr>resources := resources w @
             [to_doc (fst (new_Resource w (strip (rsplit 58 2 (strip l) ! 0))
                (strip (rsplit 58 2 (strip l) ! 1)) (strip (rsplit 58 2 (strip l) ! 2))))]\<rparr>))
          (Suc i) rest (Suc imp) errs)"
  by (simp add: import_loop.simps(2) Let_def new_Resource_def insert_one_def tick_def)

lemma import_loop_count:
  "import_loop w i ls imp errs = (Inr (n, es), w') \<Longrightarrow>
   n + length es = imp + length errs + nonblank ls"
proof (induction ls arbitrary: w i imp errs)
  case Nil
  then show ?case by simp
next
  case (Cons l ls)
  from Cons.prems show ?case
    by (auto simp add: import_loop_cases split: if_splits dest!: Cons.IH)
qed

lemma import_loop_total:
  "\<forall>k. \<not> store_down w k \<Longrightarrow> \<exists>n es w'. import_loop w i ls imp errs = (Inr (n, es), w')"
proof (induction ls arbitrary: w i imp errs)
  case Nil
  show ?case by simp
next
  case (Cons l ls)
  have "\<exists>n es w'. import_loop v j ls a b = (Inr (n, es), w')" if "store_down v = store_down w"
    for v j a b
    using Cons.IH [of v j a b] Cons.prems that by simp
  then show ?case
    using Cons.prems by (simp add: import_loop_cases tick_def)
qed

section \<open>Timestamps round-trip\<close>

lemma length_digits [simp]: "length (digits k n) = k"
  by (induction k arbitrary: n) auto

lemma digits_numeral:
  "digits (numeral k) n = digits (pred_numeral k) (n div 10) @ [48 + n mod 10]"
proof -
  have "digits (Suc (pred_numeral k)) n = digits (pred_numeral k) (n div 10) @ [48 + n mod 10]"
    by (rule digits.simps(2))
  then show ?thesis
    by (simp only: numeral_eq_Suc [symmetric])
qed

lemma number_acc_append:
  "number_acc a (xs @ ys) = (case number_acc a xs of None \<Rightarrow> None | Some b \<Rightarrow> number_acc b ys)"
  by (induction xs arbitrary: a) auto

lemma number_acc_digits: "number_acc a (digits k n) = Some (a * 10 ^ k + n mod 10 ^ k)"
proof (induction k arbitrary: n)
  case 0
  show ?case by simp
next
  case (Suc k)
  have "n mod (10 * 10 ^ k) = 10 * (n div 10 mod 10 ^ k) + n mod 10"
    by (simp add: mod_mult2_eq)
  then show ?case
    by (simp add: number_acc_append Suc.IH algebra_simps)
qed

lemma number_digits: "0 < k \<Longrightarrow> n < 10 ^ k \<Longrightarrow> number (digits k n) = Some n"
  using length_digits [of k n] by (auto simp add: number_def number_acc_digits simp del: length_digits)

lemma take_digits [simp]: "take k (digits k n @ r) = digits k n"
  by simp

lemma drop_digits [simp]: "drop k (digits k n @ r) = r"
  by simp

lemma fromisoformat_isoformat:
  assumes "valid_datetime d"
  shows "fromisoformat (isoformat d) = Some d"
proof -
  let ?Y = "digits 4 (year d)" and ?M = "digits 2 (month d)" and ?D = "digits 2 (day d)"
  let ?h = "digits 2 (hour d)" and ?m = "digits 2 (minute d)" and ?s = "digits 2 (second d)"
  let ?u = "digits 6 (microsecond d)"
  from assms have days: "day d \<le> 31"
    by (auto simp add: valid_datetime_def days_in_month_def split: if_splits)
  from assms days have nums:
    "number ?Y = Some (year d)" "number ?M = Some (month d)" "number ?D = Some (day d)"
    "number ?h = Some (hour d)" "number ?m = Some (minute d)" "number ?s = Some (second d)"
    "number ?u = Some (microsecond d)"
    by (simp_all add: valid_datetime_def number_digits)
  show ?thesis
  proof (cases "microsecond d = 0")
    case True
    have iso: "isoformat d = ?Y @ 45 # ?M @ 45 # ?D @ 84 # ?h @ 58 # ?m @ 58 # ?s @ [43, 48, 48, 58, 48, 48]"
      using True by (simp add: isoformat_def asc_def)
    have len: "length (isoformat d) = 25"
      by (simp add: iso)
    have parts:
      "take 4 (isoformat d) = ?Y" "take 2 (drop 5 (isoformat d)) = ?M"
      "take 2 (drop 8 (isoformat d)) = ?D" "take 2 (drop 11 (isoformat d)) = ?h"
      "take 2 (drop 14 (isoformat d)) = ?m" "take 2 (drop 17 (isoformat d)) = ?s"
      "drop 19 (isoformat d) = asc ''+00:00''"
      "isoformat d ! 4 = 45" "isoformat d ! 7 = 45" "isoformat d ! 13 = 58" "isoformat d ! 16 = 58"
      by (simp_all add: iso nth_append asc_def)
    have rec: "\<lparr>year = year d, month = month d, day = day d, hour = hour d,
        minute = minute d, second = second d, microsecond = 0\<rparr> = d"
      using True by simp
    show ?thesis
      using assms by (simp add: fromisoformat_def len parts nums Let_def rec)
  next
    case False
    have iso: "isoformat d = ?Y @ 45 # ?M @ 45 # ?D @ 84 # ?h @ 58 # ?m @ 58 # ?s @ 46 # ?u @ [43, 48, 48, 58, 48, 48]"
      using False by (simp add: isoformat_def asc_def)
    have len: "length (isoformat d) = 32"
      by (simp add: iso)
    have parts:
      "take 4 (isoformat d) = ?Y" "take 2 (drop 5 (isoformat d)) = ?M"
      "take 2 (drop 8 (isoformat d)) = ?D" "take 2 (drop 11 (isoformat d)) = ?h"
      "take 2 (drop 14 (isoformat d)) = ?m" "take 2 (drop 17 (isoformat d)) = ?s"
      "take 6 (drop 20 (isoformat d)) = ?u"
      "drop 26 (isoformat d) = asc ''+00:00''"
      "isoformat d ! 4 = 45" "isoformat d ! 7 = 45" "isoformat d ! 13 = 58" "isoformat d ! 16 = 58"
      "isoformat d ! 19 = 46"
      by (simp_all add: iso nth_append asc_def)
    have rec: "\<lparr>year = year d, month = month d, day = day d, hour = hour d,
        minute = minute d, second = second d, microsecond = microsecond d\<rparr> = d"
      by simp
    show ?thesis
      using assms by (simp add: fromisoformat_def len parts nums Let_def rec)
  qed
qed

section \<open>Update and delete on the store\<close>

lemma set_active_first_absent:
  "\<forall>d\<in>set ds. doc_id d \<noteq> rid \<Longrightarrow> set_active_first rid v ds = (None, ds)"
  by (induction ds) auto

lemma remove_first_absent:
  "\<forall>d\<in>set ds. doc_id d \<noteq> rid \<Longrightarrow> remove_first rid ds = (0, ds)"
  by (induction ds) auto

lemma set_active_first_present:
  "find (\<lambda>d. doc_id d = rid) ds = Some d \<Longrightarrow>
   fst (set_active_first rid v ds) = Some (d\<lparr>doc_is_active := v\<rparr>) \<and>
   find (\<lambda>d. doc_id d = rid) (snd (set_active_first rid v ds)) = Some (d\<lparr>doc_is_active := v\<rparr>)"
  by (induction ds) (auto split: prod.splits)

lemma set_active_first_again:
  "snd (set_active_first rid v (snd (set_active_first rid v ds))) = snd (set_active_first rid v ds)"
  by (induction ds) (auto split: prod.splits)

lemma from_doc_set_active:
  "from_doc d = Inr r \<Longrightarrow> from_doc (d\<lparr>doc_is_active := v\<rparr>) = Inr (r\<lparr>is_active := v\<rparr>)"
  by (auto simp add: from_doc_def split: stamp.splits option.splits sum.splits)

lemma update_absent:
  assumes "\<forall>d\<in>set (resources w). doc_id d \<noteq> rid"
  shows "resources (snd (update_resource w rid v)) = resources w"
    and "\<not> store_down w (steps w) \<Longrightarrow>
         fst (update_resource w rid v) = Inl (HTTPException 404 msg_not_found None)"
  using assms
  by (simp_all add: update_resource_def find_one_and_update_def set_active_first_absent tick_def)

lemma delete_absent:
  assumes "\<forall>d\<in>set (resources w). doc_id d \<noteq> rid"
  shows "resources (snd (delete_resource w rid)) = resources w"
    and "\<not> store_down w (steps w) \<Longrightarrow>
         fst (delete_resource w rid) = Inl (HTTPException 404 msg_not_found None)"
  using assms
  by (simp_all add: delete_resource_def delete_one_def remove_first_absent tick_def)

lemma update_present:
  assumes "find (\<lambda>d. doc_id d = rid) (resources w) = Some d"
    and "from_doc d = Inr r" and "\<not> store_down w (steps w)"
  shows "fst (update_resource w rid v) = Inr (r\<lparr>is_active := v\<rparr>)"
    and "resources (snd (update_resource w rid v)) = snd (set_active_first rid v (resources w))"
    and "steps (snd (update_resource w rid v)) = Suc (steps w)"
    and "store_down (snd (update_resource w rid v)) = store_down w"
  using assms set_active_first_present [OF assms(1), of v] from_doc_set_active [OF assms(2), of v]
  by (auto simp add: update_resource_def find_one_and_update_def tick_def split: prod.splits)

section \<open>The scenario input\<close>

lemmas strip_eval = strip_def lstrip_def rstrip_def isspace_def asc_def

lemma str_nat_small: "n < 10 \<Longrightarrow> str_nat n = [48 + n]"
  by (simp add: str_nat.simps)

lemma scenario_lines:
  "decode scenario =
     Inr (asc ''http://a.com:user1:pass1'' @ 10 # asc ''badline'' @ 10 # asc ''http://b.com:user2:pass2'')"
  "strip (asc ''http://a.com:user1:pass1'' @ 10 # asc ''badline'' @ 10 # asc ''http://b.com:user2:pass2'') =
     asc ''http://a.com:user1:pass1'' @ 10 # asc ''badline'' @ 10 # asc ''http://b.com:user2:pass2''"
  "split_on 10 (asc ''http://a.com:user1:pass1'' @ 10 # asc ''badline'' @ 10 # asc ''http://b.com:user2:pass2'') =
     [asc ''http://a.com:user1:pass1'', asc ''badline'', asc ''http://b.com:user2:pass2'']"
  by (simp_all add: scenario_def decode_def strip_eval)

lemma scenario_line1:
  "strip (asc ''http://a.com:user1:pass1'') = asc ''http://a.com:user1:pass1''"
  "rsplit 58 2 (asc ''http://a.com:user1:pass1'') = [asc ''http://a.com'', asc ''user1'', asc ''pass1'']"
  "strip (asc ''http://a.com'') = asc ''http://a.com''"
  "strip (asc ''user1'') = asc ''user1''"
  "strip (asc ''pass1'') = asc ''pass1''"
  by (simp_all add: strip_eval numeral_2_eq_2)

lemma scenario_line2:
  "strip (asc ''badline'') = asc ''badline''"
  "rsplit 58 2 (asc ''badline'') = [asc ''badline'']"
  by (simp_all add: strip_eval numeral_2_eq_2)

lemma scenario_line3:
  "strip (asc ''http://b.com:user2:pass2'') = asc ''http://b.com:user2:pass2''"
  "rsplit 58 2 (asc ''http://b.com:user2:pass2'') = [asc ''http://b.com'', asc ''user2'', asc ''pass2'']"
  "strip (asc ''http://b.com'') = asc ''http://b.com''"
  "strip (asc ''user2'') = asc ''user2''"
  "strip (asc ''pass2'') = asc ''pass2''"
  by (simp_all add: strip_eval numeral_2_eq_2)

lemma asc_not_Nil: "asc (c # s) \<noteq> []"
  by (simp add: asc_def)

lemma scenario_run:
  assumes "\<forall>k. \<not> store_down w k"
  shows "fst (import_resources w scenario) =
           Inr \<lparr>message = msg_imported @ asc ''2'', imported = 2,
                errors = [msg_line @ asc ''2'' @ msg_bad_format]\<rparr> \<and>
         map (\<lambda>d. (doc_url d, doc_login d, doc_password d)) (resources (snd (import_resources w scenario))) =
           map (\<lambda>d. (doc_url d, doc_login d, doc_password d)) (resources w) @
           [(asc ''http://a.com'', asc ''user1'', asc ''pass1''),
            (asc ''http://b.com'', asc ''user2'', asc ''pass2'')]"
proof -
  let ?l1 = "asc ''http://a.com:user1:pass1''" and ?l2 = "asc ''badline''"
  let ?l3 = "asc ''http://b.com:user2:pass2''"
  let ?w1 = "snd (insert_one (snd (new_Resource w (asc ''http://a.com'') (asc ''user1'') (asc ''pass1'')))
               (to_doc (fst (new_Resource w (asc ''http://a.com'') (asc ''user1'') (asc ''pass1'')))))"
  let ?w2 = "snd (insert_one (snd (new_Resource ?w1 (asc ''http://b.com'') (asc ''user2'') (asc ''pass2'')))
               (to_doc (fst (new_Resource ?w1 (asc ''http://b.com'') (asc ''user2'') (asc ''pass2'')))))"
  have up: "store_down w = (\<lambda>k. False)"
    using assms by auto
  have s1: "import_loop w (Suc 0) [?l1, ?l2, ?l3] 0 [] = import_loop ?w1 (Suc (Suc 0)) [?l2, ?l3] (Suc 0) []"
    by (simp add: import_loop_insert [where a = "asc ''http://a.com''" and b = "asc ''user1''" and c = "asc ''pass1''"]
          scenario_line1 asc_not_Nil new_Resource_def insert_one_def up tick_def)
  have s2: "import_loop ?w1 (Suc (Suc 0)) [?l2, ?l3] (Suc 0) [] =
            import_loop ?w1 (Suc (Suc (Suc 0))) [?l3] (Suc 0) [err_bad_format (Suc (Suc 0))]"
    using import_loop_bad_format [of ?l2 ?w1 "Suc (Suc 0)" "[?l3]" "Suc 0" "[]"]
    by (simp add: scenario_line2 asc_not_Nil)
  have up1: "store_down ?w1 = (\<lambda>k. False)"
    by (simp add: new_Resource_def insert_one_def up tick_def)
  have s3: "import_loop ?w1 (Suc (Suc (Suc 0))) [?l3] (Suc 0) [err_bad_format (Suc (Suc 0))] =
            (Inr (Suc (Suc 0), [err_bad_format (Suc (Suc 0))]), ?w2)"
    by (simp add: import_loop_insert [where a = "asc ''http://b.com''" and b = "asc ''user2''" and c = "asc ''pass2''"]
          scenario_line3 asc_not_Nil new_Resource_def insert_one_def up tick_def)
  have loop: "import_loop w (Suc 0) [?l1, ?l2, ?l3] 0 [] =
            (Inr (Suc (Suc 0), [err_bad_format (Suc (Suc 0))]), ?w2)"
    by (simp only: s1 s2 s3)
  have n: "str_nat (Suc (Suc 0)) = asc ''2''"
    by (simp add: str_nat_small asc_def)
  have e: "err_bad_format (Suc (Suc 0)) = msg_line @ asc ''2'' @ msg_bad_format"
    by (simp add: err_bad_format_def n)
  have r: "import_resources w scenario =
      (Inr \<lparr>message = msg_imported @ asc ''2'', imported = 2,
                errors = [msg_line @ asc ''2'' @ msg_bad_format]\<rparr>, ?w2)"
    by (simp add: import_resources_def scenario_lines loop e n)
  have "resources ?w2 = resources w @
      [to_doc (fst (new_Resource w (asc ''http://a.com'') (asc ''user1'') (asc ''pass1''))),
       to_doc (fst (new_Resource ?w1 (asc ''http://b.com'') (asc ''user2'') (asc ''pass2'')))]"
    by (simp add: new_Resource_def insert_one_def up tick_def)
  then show ?thesis
    by (simp add: r to_doc_def new_Resource_def)
qed

section \<open>Import: line numbers, the scenario, blank lines; create\<close>

lemma world0_up: "\<forall>k. \<not> store_down world0 k"
  by (simp add: world0_def)

text \<open>
  C3 (as amended): for the input text
  \<open>http://a.com:user1:pass1\nbadline\nhttp://b.com:user2:pass2\<close>, with a store that
  answers, the import returns the count 2 and exactly one error, the handler's own
  Russian message for line 2 ("Line 2: invalid format (expected url:login:pass)" in
  Russian), and it stores the two records of lines 1 and 3.
\<close>

theorem import_scenario:
  assumes "\<forall>k. \<not> store_down w k"
  shows "fst (import_resources w scenario) =
           Inr \<lparr>message = msg_imported @ asc ''2'', imported = 2,
                errors = [msg_line @ asc ''2'' @ msg_bad_format]\<rparr> \<and>
         map (\<lambda>d. (doc_url d, doc_login d, doc_password d))
             (resources (snd (import_resources w scenario))) =
           map (\<lambda>d. (doc_url d, doc_login d, doc_password d)) (resources w) @
           [(asc ''http://a.com'', asc ''user1'', asc ''pass1''),
            (asc ''http://b.com'', asc ''user2'', asc ''pass2'')]"
  using assms by (rule scenario_run)

theorem import_scenario_witness:
  "(\<forall>k. \<not> store_down world0 k) \<and>
   fst (import_resources world0 scenario) =
     Inr \<lparr>message = msg_imported @ asc ''2'', imported = 2,
          errors = [msg_line @ asc ''2'' @ msg_bad_format]\<rparr> \<and>
   map (\<lambda>d. (doc_url d, doc_login d, doc_password d))
       (resources (snd (import_resources world0 scenario))) =
     [(asc ''http://a.com'', asc ''user1'', asc ''pass1''),
      (asc ''http://b.com'', asc ''user2'', asc ''pass2'')]"
proof -
  have "resources world0 = []" by (simp add: world0_def)
  then show ?thesis
    using import_scenario [OF world0_up] world0_up by simp
qed

text \<open>
  C3 (as stated) fails: on that input the import succeeds with the count 2, but its
  error list is not the English text of the claim.
\<close>

theorem import_scenario_counterexample:
  "map_sum id imported (fst (import_resources world0 scenario)) = Inr 2 \<and>
   map_sum id errors (fst (import_resources world0 scenario)) \<noteq>
     Inr [asc ''Line 2: invalid format (expected url:login:pass)'']"
  using scenario_run [OF world0_up] by (simp add: msg_line_def asc_def)

text \<open>
  C1: the text is trimmed as a whole before it is split, so a blank first line is gone
  before the lines are numbered: for the input \<open>\nbadline\<close>, whose invalid line is line
  2, the error is reported for line 1.
\<close>

theorem leading_blank_line_number:
  "fst (import_resources w [10, 98, 97, 100, 108, 105, 110, 101]) =
     Inr \<lparr>message = msg_imported @ asc ''0'', imported = 0,
          errors = [msg_line @ asc ''1'' @ msg_bad_format]\<rparr>"
proof -
  have d: "decode [10, 98, 97, 100, 108, 105, 110, 101] = Inr (10 # asc ''badline'')"
    by (simp add: decode_def asc_def)
  have s: "strip (10 # asc ''badline'') = asc ''badline''"
    by (simp add: strip_eval)
  have sp: "split_on 10 (asc ''badline'') = [asc ''badline'']"
    by (simp add: asc_def)
  have "import_loop w (Suc 0) [asc ''badline''] 0 [] =
        import_loop w (Suc (Suc 0)) [] 0 ([] @ [err_bad_format (Suc 0)])"
    by (rule import_loop_bad_format) (simp_all add: scenario_line2 asc_not_Nil)
  then have l: "import_loop w (Suc 0) [asc ''badline''] 0 [] = (Inr (0, [err_bad_format (Suc 0)]), w)"
    by simp
  have e: "err_bad_format (Suc 0) = msg_line @ asc ''1'' @ msg_bad_format"
    by (simp add: err_bad_format_def str_nat_small asc_def)
  have n: "str_nat 0 = asc ''0''"
    by (simp add: str_nat_small asc_def)
  show ?thesis
    by (simp add: import_resources_def d s sp l e n)
qed

text \<open>
  C5: a line that is empty after trimming is skipped, with no error recorded and
  nothing counted: the loop goes on with the same counter, the same errors and the same
  store. For an empty file the result is the count 0 and no error.
\<close>

theorem blank_lines_skipped:
  assumes "strip l = []"
  shows "import_loop w i (l # rest) imp errs = import_loop w (Suc i) rest imp errs \<and>
         import_resources w [] =
           (Inr \<lparr>message = msg_imported @ asc ''0'', imported = 0, errors = []\<rparr>, w)"
proof -
  have "decode [] = Inr []" by (simp add: decode_def)
  moreover have "strip [] = []" by (simp add: strip_eval)
  moreover have "str_nat 0 = asc ''0''" by (simp add: str_nat_small asc_def)
  ultimately have "import_resources w [] =
      (Inr \<lparr>message = msg_imported @ asc ''0'', imported = 0, errors = []\<rparr>, w)"
    by (simp add: import_resources_def import_loop_blank)
  with import_loop_blank [OF assms] show ?thesis by simp
qed

theorem blank_lines_skipped_witness:
  "strip [32, 9, 13] = [] \<and>
   import_loop world0 1 [[32, 9, 13]] 0 [] = (Inr (0, []), world0) \<and>
   import_resources world0 [] =
     (Inr \<lparr>message = msg_imported @ asc ''0'', imported = 0, errors = []\<rparr>, world0)"
proof -
  have h: "strip [32, 9, 13] = []" by (simp add: strip_eval)
  show ?thesis
    using blank_lines_skipped [OF h, of world0 1 "[]" 0 "[]"] h by simp
qed

text \<open>
  C6: \<open>create_resource\<close> checks nothing: a request with an empty \<open>url\<close> succeeds and
  the record it stores has the empty string as \<open>url\<close>.
\<close>

theorem create_stores_empty_url:
  "create_resource world0 \<lparr>new_url = [], new_login = asc ''u'', new_password = asc ''p''\<rparr> =
     (Inr \<lparr>res_id = asc ''id-0'', url = [], login = asc ''u'', password = asc ''p'',
           is_active = True, created_at = sample_time\<rparr>,
      world0\<lparr>resources :=
        [\<lparr>doc_id = asc ''id-0'', doc_url = [], doc_login = asc ''u'', doc_password = asc ''p'',
          doc_is_active = True, doc_created_at = Str (isoformat sample_time)\<rparr>],
        steps := 2\<rparr>)"
  by (simp add: create_resource_def new_Resource_def insert_one_def to_doc_def tick_def
      world0_def str_nat_small asc_def)

section \<open>Import: fatal paths\<close>







section \<open>Import: line format and accounting\<close>

text \<open>
  C4: a non-empty trimmed line is split from the right at no more than two colons. With
  two or more colons in it there are exactly three segments: the last two segments,
  free of colons, are login and password, and everything before them is the url; if the
  three are non-empty after trimming the line is accepted, that is, a resource with the
  three trimmed segments is built and inserted and the loop goes on with the counter
  incremented. With no colon or one colon the invalid-format error for that line is
  recorded.
\<close>

theorem import_line_split:
  assumes "strip l \<noteq> []"
  shows "(2 \<le> count_list (strip l) 58 \<longrightarrow>
            (\<exists>u lg pw. rsplit 58 2 (strip l) = [u, lg, pw] \<and>
               strip l = u @ 58 # lg @ 58 # pw \<and> 58 \<notin> set lg \<and> 58 \<notin> set pw \<and>
               (strip u \<noteq> [] \<and> strip lg \<noteq> [] \<and> strip pw \<noteq> [] \<longrightarrow>
                  import_loop w i (l # rest) imp errs =
                    (case new_Resource w (strip u) (strip lg) (strip pw) of
                       (resource_obj, w1) \<Rightarrow>
                         (case insert_one w1 (to_doc resource_obj) of
                            (Inl e, w2) \<Rightarrow> (Inl e, w2)
                          | (Inr x, w2) \<Rightarrow> import_loop w2 (Suc i) rest (Suc imp) errs))))) \<and>
         (count_list (strip l) 58 < 2 \<longrightarrow>
            import_loop w i (l # rest) imp errs =
              import_loop w (Suc i) rest imp (errs @ [err_bad_format i]))"
proof (intro conjI impI)
  assume "2 \<le> count_list (strip l) 58"
  from rsplit_two [OF this] obtain u lg pw where
    r: "rsplit 58 2 (strip l) = [u, lg, pw]" and
    s: "strip l = u @ 58 # lg @ 58 # pw" "58 \<notin> set lg" "58 \<notin> set pw"
    by blast
  have "import_loop w i (l # rest) imp errs =
          (case new_Resource w (strip u) (strip lg) (strip pw) of
             (resource_obj, w1) \<Rightarrow>
               (case insert_one w1 (to_doc resource_obj) of
                  (Inl e, w2) \<Rightarrow> (Inl e, w2)
                | (Inr x, w2) \<Rightarrow> import_loop w2 (Suc i) rest (Suc imp) errs))"
    if "strip u \<noteq> [] \<and> strip lg \<noteq> [] \<and> strip pw \<noteq> []"
    using import_loop_insert [OF assms r] that by blast
  with r s show "\<exists>u lg pw. rsplit 58 2 (strip l) = [u, lg, pw] \<and>
       strip l = u @ 58 # lg @ 58 # pw \<and> 58 \<notin> set lg \<and> 58 \<notin> set pw \<and>
       (strip u \<noteq> [] \<and> strip lg \<noteq> [] \<and> strip pw \<noteq> [] \<longrightarrow>
          import_loop w i (l # rest) imp errs =
            (case new_Resource w (strip u) (strip lg) (strip pw) of
               (resource_obj, w1) \<Rightarrow>
                 (case insert_one w1 (to_doc resource_obj) of
                    (Inl e, w2) \<Rightarrow> (Inl e, w2)
                  | (Inr x, w2) \<Rightarrow> import_loop w2 (Suc i) rest (Suc imp) errs)))"
    by blast
next
  assume "count_list (strip l) 58 < 2"
  then have "length (rsplit 58 2 (strip l)) \<noteq> 3"
    by (simp add: length_rsplit min_def)
  with assms show "import_loop w i (l # rest) imp errs =
      import_loop w (Suc i) rest imp (errs @ [err_bad_format i])"
    by (rule import_loop_bad_format)
qed

theorem import_line_split_witness:
  "strip (asc ''h://a:b: c:d '') \<noteq> [] \<and> 2 \<le> count_list (strip (asc ''h://a:b: c:d '')) 58 \<and>
   rsplit 58 2 (strip (asc ''h://a:b: c:d '')) = [asc ''h://a:b'', asc '' c'', asc ''d''] \<and>
   fst (import_loop world0 1 [asc ''h://a:b: c:d ''] 0 []) = Inr (1, []) \<and>
   map (\<lambda>d. (doc_url d, doc_login d, doc_password d))
     (resources (snd (import_loop world0 1 [asc ''h://a:b: c:d ''] 0 []))) =
     [(asc ''h://a:b'', asc ''c'', asc ''d'')] \<and>
   strip (asc ''a:b'') \<noteq> [] \<and> count_list (strip (asc ''a:b'')) 58 < 2 \<and>
   import_loop world0 1 [asc ''a:b''] 0 [] = (Inr (0, [err_bad_format 1]), world0)"
proof -
  let ?l = "asc ''h://a:b: c:d ''"
  have ne: "strip ?l \<noteq> []" by (simp add: strip_eval)
  have c2: "2 \<le> count_list (strip ?l) 58" by (simp add: strip_eval)
  have rs: "rsplit 58 2 (strip ?l) = [asc ''h://a:b'', asc '' c'', asc ''d'']"
    by (simp add: strip_eval numeral_2_eq_2)
  have parts: "strip (asc ''h://a:b'') = asc ''h://a:b''" "strip (asc '' c'') = asc ''c''"
    "strip (asc ''d'') = asc ''d''"
    by (simp_all add: strip_eval)
  from import_line_split [OF ne, of world0 1 "[]" 0 "[]"] c2 obtain u lg pw where
    u: "rsplit 58 2 (strip ?l) = [u, lg, pw]" and
    acc: "strip u \<noteq> [] \<and> strip lg \<noteq> [] \<and> strip pw \<noteq> [] \<longrightarrow>
          import_loop world0 1 [?l] 0 [] =
            (case new_Resource world0 (strip u) (strip lg) (strip pw) of
               (resource_obj, w1) \<Rightarrow>
                 (case insert_one w1 (to_doc resource_obj) of
                    (Inl e, w2) \<Rightarrow> (Inl e, w2)
                  | (Inr x, w2) \<Rightarrow> import_loop w2 (Suc 1) [] (Suc 0) []))"
    by blast
  from u rs have eq: "u = asc ''h://a:b''" "lg = asc '' c''" "pw = asc ''d''"
    by simp_all
  from acc have run: "import_loop world0 1 [?l] 0 [] =
      (case new_Resource world0 (asc ''h://a:b'') (asc ''c'') (asc ''d'') of
         (resource_obj, w1) \<Rightarrow>
           (case insert_one w1 (to_doc resource_obj) of
              (Inl e, w2) \<Rightarrow> (Inl e, w2)
            | (Inr x, w2) \<Rightarrow> import_loop w2 (Suc 1) [] (Suc 0) []))"
    by (simp add: eq parts asc_not_Nil)
  have "(case new_Resource world0 (asc ''h://a:b'') (asc ''c'') (asc ''d'') of
         (resource_obj, w1) \<Rightarrow>
           (case insert_one w1 (to_doc resource_obj) of
              (Inl e, w2) \<Rightarrow> (Inl e, w2)
            | (Inr x, w2) \<Rightarrow> import_loop w2 (Suc 1) [] (Suc 0) [])) =
        (Inr (1, []), world0\<lparr>resources :=
           [to_doc (fst (new_Resource world0 (asc ''h://a:b'') (asc ''c'') (asc ''d'')))],
           steps := 2\<rparr>)"
    by (simp add: new_Resource_def insert_one_def tick_def world0_def)
  with run have "import_loop world0 1 [?l] 0 [] =
        (Inr (1, []), world0\<lparr>resources :=
           [to_doc (fst (new_Resource world0 (asc ''h://a:b'') (asc ''c'') (asc ''d'')))],
           steps := 2\<rparr>)"
    by (rule trans)
  then have good: "fst (import_loop world0 1 [?l] 0 []) = Inr (1, []) \<and>
      map (\<lambda>d. (doc_url d, doc_login d, doc_password d))
        (resources (snd (import_loop world0 1 [?l] 0 []))) =
        [(asc ''h://a:b'', asc ''c'', asc ''d'')]"
    by (simp add: new_Resource_def to_doc_def)
  let ?b = "asc ''a:b''"
  have ne': "strip ?b \<noteq> []" by (simp add: strip_eval)
  have c1: "count_list (strip ?b) 58 < 2" by (simp add: strip_eval)
  from import_line_split [OF ne', of world0 1 "[]" 0 "[]"] c1
  have "import_loop world0 1 [?b] 0 [] = import_loop world0 (Suc 1) [] 0 ([] @ [err_bad_format 1])"
    by blast
  then have bad: "import_loop world0 1 [?b] 0 [] = (Inr (0, [err_bad_format 1]), world0)"
    by simp
  from ne c2 rs good ne' c1 bad show ?thesis by blast
qed

text \<open>
  C10: when the import returns its report, the count plus the number of errors is the
  number of lines of the decoded text that are non-empty after trimming; and it does
  return the report when the bytes decode and the store answers. Line by line: a
  non-empty trimmed line either increments the count and leaves the errors as they are,
  or adds exactly one error and leaves the count as it is.
\<close>

theorem import_accounting:
  assumes "decode contents = Inr text"
  shows "(\<forall>rep. fst (import_resources w contents) = Inr rep \<longrightarrow>
            imported rep + length (errors rep) = nonblank (split_on 10 text)) \<and>
         ((\<forall>k. \<not> store_down w k) \<longrightarrow> (\<exists>rep. fst (import_resources w contents) = Inr rep)) \<and>
         (\<forall>v i l imp errs n es v'.
            strip l \<noteq> [] \<and> import_loop v i [l] imp errs = (Inr (n, es), v') \<longrightarrow>
            (n = Suc imp \<and> es = errs) \<or> (n = imp \<and> (\<exists>m. es = errs @ [m])))"
proof (intro conjI allI impI)
  fix rep
  assume a: "fst (import_resources w contents) = Inr rep"
  obtain r w' where l: "import_loop w 1 (split_on 10 (strip text)) 0 [] = (r, w')"
    by (cases "import_loop w 1 (split_on 10 (strip text)) 0 []") auto
  show "imported rep + length (errors rep) = nonblank (split_on 10 text)"
  proof (cases r)
    case (Inl e)
    with a assms l show ?thesis by (simp add: import_resources_def)
  next
    case (Inr p)
    obtain n es where p: "p = (n, es)" by (cases p) auto
    from l Inr p have "import_loop w 1 (split_on 10 (strip text)) 0 [] = (Inr (n, es), w')"
      by simp
    from import_loop_count [OF this] have "n + length es = nonblank (split_on 10 text)"
      by (simp add: nonblank_strip)
    moreover from a assms l Inr p have "imported rep = n" "errors rep = es"
      by (auto simp add: import_resources_def)
    ultimately show ?thesis by simp
  qed
next
  assume up: "\<forall>k. \<not> store_down w k"
  from import_loop_total [OF up, of 1 "split_on 10 (strip text)" 0 "[]"]
  obtain n es w' where "import_loop w 1 (split_on 10 (strip text)) 0 [] = (Inr (n, es), w')"
    by blast
  with assms show "\<exists>rep. fst (import_resources w contents) = Inr rep"
    by (simp add: import_resources_def)
next
  fix v i l imp errs n es v'
  assume "strip l \<noteq> [] \<and> import_loop v i [l] imp errs = (Inr (n, es), v')"
  then show "(n = Suc imp \<and> es = errs) \<or> (n = imp \<and> (\<exists>m. es = errs @ [m]))"
    by (auto simp add: import_loop_cases split: if_splits)
qed

theorem import_accounting_witness:
  "decode scenario =
     Inr (asc ''http://a.com:user1:pass1'' @ 10 # asc ''badline'' @ 10 # asc ''http://b.com:user2:pass2'') \<and>
   (\<forall>k. \<not> store_down world0 k) \<and>
   fst (import_resources world0 scenario) =
     Inr \<lparr>message = msg_imported @ asc ''2'', imported = 2,
          errors = [msg_line @ asc ''2'' @ msg_bad_format]\<rparr> \<and>
   nonblank (split_on 10
     (asc ''http://a.com:user1:pass1'' @ 10 # asc ''badline'' @ 10 # asc ''http://b.com:user2:pass2'')) = 3 \<and>
   strip (asc ''a:b'') \<noteq> [] \<and>
   import_loop world0 1 [asc ''a:b''] 0 [] = (Inr (0, [] @ [err_bad_format 1]), world0)"
proof -
  let ?t = "asc ''http://a.com:user1:pass1'' @ 10 # asc ''badline'' @ 10 # asc ''http://b.com:user2:pass2''"
  have d: "decode scenario = Inr ?t" by (rule scenario_lines(1))
  have r: "fst (import_resources world0 scenario) =
     Inr \<lparr>message = msg_imported @ asc ''2'', imported = 2,
          errors = [msg_line @ asc ''2'' @ msg_bad_format]\<rparr>"
    using scenario_run [OF world0_up] by blast
  from import_accounting [OF d, of world0] r
  have "imported \<lparr>message = msg_imported @ asc ''2'', imported = 2,
          errors = [msg_line @ asc ''2'' @ msg_bad_format]\<rparr> +
        length (errors \<lparr>message = msg_imported @ asc ''2'', imported = 2,
          errors = [msg_line @ asc ''2'' @ msg_bad_format]\<rparr>) = nonblank (split_on 10 ?t)"
    by blast
  then have n: "nonblank (split_on 10 ?t) = 3" by simp
  have ne: "strip (asc ''a:b'') \<noteq> []" by (simp add: strip_eval)
  have "length (rsplit 58 2 (strip (asc ''a:b''))) \<noteq> 3"
    by (simp add: strip_eval numeral_2_eq_2)
  with ne have b: "import_loop world0 1 [asc ''a:b''] 0 [] = (Inr (0, [] @ [err_bad_format 1]), world0)"
    by (simp add: import_loop_bad_format)
  from import_accounting [OF d, of world0] ne b
  have "(0 = Suc 0 \<and> [] @ [err_bad_format 1] = []) \<or>
        (0 = (0::nat) \<and> (\<exists>m. [] @ [err_bad_format 1] = [] @ [m]))"
    by blast
  with d world0_up r n ne b show ?thesis by blast
qed

section \<open>Update, delete and the timestamp round-trip\<close>

lemma from_doc_fields:
  "from_doc d = Inr r \<Longrightarrow>
   res_id r = doc_id d \<and> url r = doc_url d \<and> login r = doc_login d \<and>
   password r = doc_password d \<and> is_active r = doc_is_active d"
  by (auto simp add: from_doc_def split: stamp.splits option.splits sum.splits)

lemma valid_sample_time: "valid_datetime sample_time"
  by (simp add: valid_datetime_def sample_time_def days_in_month_def is_leap_def)

lemma from_doc_to_doc: "valid_datetime (created_at r) \<Longrightarrow> from_doc (to_doc r) = Inr r"
  by (simp add: from_doc_def to_doc_def fromisoformat_isoformat)

lemma sample_doc_read: "from_doc sample_doc = Inr sample_resource"
  unfolding sample_doc_def
  by (rule from_doc_to_doc) (simp add: sample_resource_def valid_sample_time)

lemma world1_find: "find (\<lambda>d. doc_id d = asc ''id-0'') (resources world1) = Some sample_doc"
  by (simp add: world1_def sample_doc_def to_doc_def sample_resource_def)

lemma world1_up: "\<forall>k. \<not> store_down world1 k"
  by (simp add: world1_def world0_def)

text \<open>
  C7: for an identifier that no stored document has, with a store that answers, both
  \<open>update_resource\<close> and \<open>delete_resource\<close> fail with the 404 \<open>HTTPException\<close>, and the
  collection is as it was.
\<close>

theorem missing_id_not_found:
  assumes "\<forall>d\<in>set (resources w). doc_id d \<noteq> rid" and "\<not> store_down w (steps w)"
  shows "fst (update_resource w rid v) = Inl (HTTPException 404 msg_not_found None) \<and>
         status_code (fst (update_resource w rid v)) = 404 \<and>
         resources (snd (update_resource w rid v)) = resources w \<and>
         fst (delete_resource w rid) = Inl (HTTPException 404 msg_not_found None) \<and>
         status_code (fst (delete_resource w rid)) = 404 \<and>
         resources (snd (delete_resource w rid)) = resources w"
  using update_absent [OF assms(1), of v] delete_absent [OF assms(1)] assms(2) by simp

theorem missing_id_not_found_witness:
  "asc ''nope'' \<notin> doc_id ` set (resources world1) \<and>
   \<not> store_down world1 (steps world1) \<and>
   fst (update_resource world1 (asc ''nope'') False) =
     Inl (HTTPException 404 msg_not_found None) \<and>
   resources (snd (update_resource world1 (asc ''nope'') False)) = [sample_doc] \<and>
   fst (delete_resource world1 (asc ''nope'')) = Inl (HTTPException 404 msg_not_found None) \<and>
   resources (snd (delete_resource world1 (asc ''nope''))) = [sample_doc]"
proof -
  have h1: "\<forall>d\<in>set (resources world1). doc_id d \<noteq> asc ''nope''"
    by (simp add: world1_def sample_doc_def to_doc_def sample_resource_def asc_def)
  have h2: "\<not> store_down world1 (steps world1)"
    using world1_up by blast
  have r: "resources world1 = [sample_doc]"
    by (simp add: world1_def)
  from h1 have h1': "asc ''nope'' \<notin> doc_id ` set (resources world1)"
    by auto
  show ?thesis
    using missing_id_not_found [OF h1 h2, of False] h1' h2 r by simp
qed

text \<open>
  C8: for an identifier that a stored document has, a document that reads back as the
  resource \<open>r\<close>, and a store that answers, \<open>update_resource\<close> with \<open>is_active = False\<close>
  returns \<open>r\<close> with \<open>is_active\<close> false and every other field as stored, which is the
  document as it is in the store after the update; a second call returns the same
  resource and leaves the collection as the first call left it.
\<close>

theorem set_inactive_idempotent:
  assumes "find (\<lambda>d. doc_id d = rid) (resources w) = Some d" and "from_doc d = Inr r"
    and "\<forall>k. \<not> store_down w k"
  shows "fst (update_resource w rid False) = Inr (r\<lparr>is_active := False\<rparr>) \<and>
         res_id r = doc_id d \<and> url r = doc_url d \<and> login r = doc_login d \<and>
         password r = doc_password d \<and>
         find (\<lambda>d. doc_id d = rid) (resources (snd (update_resource w rid False))) =
           Some (d\<lparr>doc_is_active := False\<rparr>) \<and>
         from_doc (d\<lparr>doc_is_active := False\<rparr>) = Inr (r\<lparr>is_active := False\<rparr>) \<and>
         fst (update_resource (snd (update_resource w rid False)) rid False) =
           Inr (r\<lparr>is_active := False\<rparr>) \<and>
         resources (snd (update_resource (snd (update_resource w rid False)) rid False)) =
           resources (snd (update_resource w rid False))"
proof -
  let ?w1 = "snd (update_resource w rid False)"
  from assms(3) have up: "\<not> store_down w (steps w)" by blast
  note first = update_present [OF assms(1) assms(2) up, of False]
  have f1: "find (\<lambda>d. doc_id d = rid) (resources ?w1) = Some (d\<lparr>doc_is_active := False\<rparr>)"
    using set_active_first_present [OF assms(1), of False] first(2) by simp
  have r1: "from_doc (d\<lparr>doc_is_active := False\<rparr>) = Inr (r\<lparr>is_active := False\<rparr>)"
    by (rule from_doc_set_active [OF assms(2)])
  have up1: "\<not> store_down ?w1 (steps ?w1)"
    using first(4) assms(3) by simp
  note second = update_present [OF f1 r1 up1, of False]
  have "resources (snd (update_resource ?w1 rid False)) = resources ?w1"
    using second(2) first(2) by (simp add: set_active_first_again)
  with first(1) f1 r1 second(1) from_doc_fields [OF assms(2)] show ?thesis
    by simp
qed

theorem set_inactive_idempotent_witness:
  "find (\<lambda>d. doc_id d = asc ''id-0'') (resources world1) = Some sample_doc \<and>
   from_doc sample_doc = Inr sample_resource \<and> (\<forall>k. \<not> store_down world1 k) \<and>
   fst (update_resource world1 (asc ''id-0'') False) =
     Inr (sample_resource\<lparr>is_active := False\<rparr>) \<and>
   fst (update_resource (snd (update_resource world1 (asc ''id-0'') False)) (asc ''id-0'') False) =
     Inr (sample_resource\<lparr>is_active := False\<rparr>) \<and>
   resources (snd (update_resource (snd (update_resource world1 (asc ''id-0'') False))
       (asc ''id-0'') False)) =
     resources (snd (update_resource world1 (asc ''id-0'') False))"
  using set_inactive_idempotent [OF world1_find sample_doc_read world1_up]
    world1_find sample_doc_read world1_up
  by blast

text \<open>
  C9: a valid \<open>created_at\<close> written with \<open>isoformat\<close>, as the insert does, and read with
  \<open>fromisoformat\<close>, as the read does, is the timestamp it was, in every field down to the
  microsecond; so a stored document reads back as the resource it was made from.
\<close>

theorem created_at_round_trip:
  assumes "valid_datetime (created_at r)"
  shows "fromisoformat (isoformat (created_at r)) = Some (created_at r) \<and>
         doc_created_at (to_doc r) = Str (isoformat (created_at r)) \<and>
         from_doc (to_doc r) = Inr r"
proof -
  have "doc_created_at (to_doc r) = Str (isoformat (created_at r))"
    by (simp add: to_doc_def)
  with fromisoformat_isoformat [OF assms] from_doc_to_doc [OF assms] show ?thesis
    by blast
qed

theorem created_at_round_trip_witness:
  "valid_datetime (created_at sample_resource) \<and>
   isoformat sample_time = asc ''2024-02-29T23:59:58.123456+00:00'' \<and>
   fromisoformat (asc ''2024-02-29T23:59:58.123456+00:00'') = Some sample_time \<and>
   from_doc (to_doc sample_resource) = Inr sample_resource"
proof -
  have c: "created_at sample_resource = sample_time"
    by (simp add: sample_resource_def)
  have v: "valid_datetime (created_at sample_resource)"
    by (simp add: c valid_sample_time)
  have i: "isoformat sample_time = asc ''2024-02-29T23:59:58.123456+00:00''"
    by (simp add: isoformat_def sample_time_def asc_def digits_numeral)
  from created_at_round_trip [OF v] c i v show ?thesis
    by simp
qed

end
